theory Spec2Isabelle
  imports Complex_Main
begin

section \<open>The collector of classification results\<close>

text \<open>
  Both classifier programs (\<^verbatim>\<open>detect-chinese/detect_chinese.go\<close> and the second,
  rune-index program) run one goroutine \<^verbatim>\<open>printResults\<close> that selects over the result
  channel \<^verbatim>\<open>ch\<close> and the count channel \<^verbatim>\<open>count_ch\<close>. What the goroutine does depends
  only on the order in which the two channels hand it values, so a run is modelled by the
  list of values it receives, in order: \<open>Result s\<close> for a string taken from \<^verbatim>\<open>ch\<close> and
  \<open>Count n\<close> for an integer taken from \<^verbatim>\<open>count_ch\<close>. Every interleaving of the senders
  is one such list.
\<close>

datatype event = Result string | Count int

record collector =
  expecting :: int
  received_count :: int
  printed :: "string list"

text \<open>\<^verbatim>\<open>var expecting int; var received_count int = 1\<close>\<close>

definition collector_init :: collector where
  "collector_init = \<lparr>expecting = 0, received_count = 1, printed = []\<rparr>"

text \<open>
  The lines written for a non-empty response: the byte-offset program prints the response,
  the rune-index program prints an empty line first.
\<close>

definition println_offsets :: "string \<Rightarrow> string list" where
  "println_offsets response = [response]"

definition println_runes :: "string \<Rightarrow> string list" where
  "println_runes response = ['''', response]"

text \<open>One \<^verbatim>\<open>select\<close>: the two cases of the statement.\<close>

fun select_case :: "(string \<Rightarrow> string list) \<Rightarrow> collector \<Rightarrow> event \<Rightarrow> collector" where
  "select_case pr c (Result response) =
     c\<lparr>received_count := received_count c + 1,
       printed := (if response \<noteq> [] then printed c @ pr response else printed c)\<rparr>"
| "select_case pr c (Count e) = c\<lparr>expecting := e\<rparr>"

text \<open>
  The \<^verbatim>\<open>for\<close> loop. \<open>Done c es\<close>: the loop reached \<^verbatim>\<open>break\<close> in state \<open>c\<close> (the goroutine
  then sends \<^verbatim>\<open>0\<close> on \<^verbatim>\<open>count_ch\<close>), and \<open>es\<close> are the values it never received.
  \<open>Blocked c\<close>: every value was received and the loop is back in \<^verbatim>\<open>select\<close>, where it
  waits for ever, since nothing more is sent.
\<close>

datatype collector_end = Done collector "event list" | Blocked collector

fun printResults_loop ::
  "(string \<Rightarrow> string list) \<Rightarrow> collector \<Rightarrow> event list \<Rightarrow> collector_end" where
  "printResults_loop pr c [] = Blocked c"
| "printResults_loop pr c (e # es) =
     (let c' = select_case pr c e
      in if expecting c' > 0 \<and> received_count c' = expecting c' then Done c' es
         else printResults_loop pr c' es)"

definition printResults :: "(string \<Rightarrow> string list) \<Rightarrow> event list \<Rightarrow> collector_end" where
  "printResults pr evs = printResults_loop pr collector_init evs"

text \<open>The number of results among the values received.\<close>

fun results_in :: "event list \<Rightarrow> nat" where
  "results_in [] = 0"
| "results_in (Result s # es) = Suc (results_in es)"
| "results_in (Count n # es) = results_in es"

section \<open>Go library functions read by the programs\<close>

text \<open>
  A Go \<^verbatim>\<open>string\<close> and a \<^verbatim>\<open>[]byte\<close> are byte sequences: both are HOL strings here
  (\<open>char\<close> is a byte). An input stream is the string of the bytes not yet read; reading
  returns what is left. The streams are in memory, so the only read error is \<^verbatim>\<open>io.EOF\<close>.
\<close>

datatype error = EOF | ErrSyntax | ErrRange | ErrJSON

datatype panic =
    MalformedFirstLine
  | HitFailsafe
  | NoRecordLength
  | OnlyRead nat int
  | NoRefersTo
  | RecordMissingID
  | OnlyFound nat nat
  | MakesliceLenOutOfRange
  | IndexOutOfRange
  | NilDereference

definition LF :: char where
  "LF = CHR 0x0A"

text \<open>
  \<^verbatim>\<open>bufio.Reader.ReadString('\n')\<close>: the bytes up to and including the first line feed;
  when the stream ends first, the bytes read so far together with \<^verbatim>\<open>io.EOF\<close>.
\<close>

fun ReadString :: "string \<Rightarrow> string \<times> error option \<times> string" where
  "ReadString [] = ([], Some EOF, [])"
| "ReadString (c # s) =
     (if c = LF then ([c], None, s)
      else (case ReadString s of (line, err, rest) \<Rightarrow> (c # line, err, rest)))"

text \<open>
  \<^verbatim>\<open>bufio.Reader.Read(p)\<close> with \<open>want = len(p) > 0\<close>: \<^verbatim>\<open>(0, io.EOF)\<close> at the end of the
  stream, otherwise at least one byte and at most \<open>want\<close>. The model hands over
  everything available up to \<open>want\<close>; a reader that hands over less makes the caller's
  loop run again and delivers the same bytes in total.
\<close>

definition Read :: "nat \<Rightarrow> string \<Rightarrow> nat \<times> error option \<times> string \<times> string" where
  "Read want s =
     (if s = [] then (0, Some EOF, [], [])
      else (let n = min want (length s) in (n, None, take n s, drop n s)))"

definition HasPrefix :: "string \<Rightarrow> string \<Rightarrow> bool" where
  "HasPrefix s p = (take (length p) s = p)"

fun Contains :: "string \<Rightarrow> string \<Rightarrow> bool" where
  "Contains [] sub = (sub = [])"
| "Contains (c # s) sub = (HasPrefix (c # s) sub \<or> Contains s sub)"

fun Join :: "string list \<Rightarrow> string \<Rightarrow> string" where
  "Join [] sep = []"
| "Join [a] sep = a"
| "Join (a # b # rest) sep = a @ sep @ Join (b # rest) sep"

text \<open>
  \<^verbatim>\<open>strconv.Atoi\<close>: an optional sign, then one or more decimal digits; anything else is a
  syntax error, and a value outside the 64-bit \<^verbatim>\<open>int\<close> is a range error.
\<close>

definition is_digit :: "char \<Rightarrow> bool" where
  "is_digit c = (48 \<le> (of_char c :: nat) \<and> (of_char c :: nat) \<le> 57)"

fun digits_value :: "string \<Rightarrow> nat \<Rightarrow> nat option" where
  "digits_value [] acc = Some acc"
| "digits_value (c # cs) acc =
     (if is_digit c then digits_value cs (acc * 10 + (of_char c - 48)) else None)"

definition Atoi :: "string \<Rightarrow> error + int" where
  "Atoi s =
     (let (neg, ds) =
            (case s of
               [] \<Rightarrow> (False, [])
             | c # r \<Rightarrow> if c = CHR ''-'' then (True, r)
                        else if c = CHR ''+'' then (False, r) else (False, s))
      in if ds = [] then Inl ErrSyntax
         else (case digits_value ds 0 of
                 None \<Rightarrow> Inl ErrSyntax
               | Some v \<Rightarrow>
                   (let i = (if neg then - int v else int v)
                    in if i < - (2 ^ 63) \<or> 2 ^ 63 \<le> i then Inl ErrRange else Inr i)))"

text \<open>
  \<^verbatim>\<open>strings.TrimSpace\<close> strips the white space of Unicode at both ends. The programs are
  modelled for any function \<open>trim\<close> in its place, so every statement below holds for the
  library's function whatever it strips. \<open>TrimSpace_ascii\<close> is the library's function on
  the strings whose first and last bytes other than ASCII white space are ASCII; it
  instantiates \<open>trim\<close> where a concrete stream is run.
\<close>

definition ascii_space :: "char \<Rightarrow> bool" where
  "ascii_space c = ((of_char c :: nat) \<in> {9, 10, 11, 12, 13, 32})"

definition TrimSpace_ascii :: "string \<Rightarrow> string" where
  "TrimSpace_ascii s = rev (dropWhile ascii_space (rev (dropWhile ascii_space s)))"

section \<open>The metadata correlator: \<^verbatim>\<open>read-meta/read_meta.go\<close>\<close>

record GzipMetaData =
  FooterLength :: int
  DeflateLength :: int
  GzipHeaderLength :: int
  InflatedLength :: int

record WarcContainer =
  Compressed :: bool
  Offset :: int
  Filename :: string
  GzipMeta :: GzipMetaData

record WarcMetaData =
  Type :: string
  Length :: int
  RecordId :: string
  Uri :: string
  MetaContentType :: string

record HTTPHeaders =
  ContentType :: string

record ResponseMessage =
  Status :: int

record ResponseMetaData =
  ResponseInfo :: ResponseMessage
  Headers :: HTTPHeaders

record PayloadMetaData =
  ResponseMeta :: ResponseMetaData

record WarcEnvelope =
  Format :: string
  HeaderLength :: int
  Digest :: string
  ContentLength :: int
  HeaderMetaData :: WarcMetaData
  PayloadMetaData :: PayloadMetaData

record WarcMeta =
  Envelope :: WarcEnvelope
  Container :: WarcContainer

text \<open>The struct \<^verbatim>\<open>record\<close>; \<open>rlength\<close> is its field \<^verbatim>\<open>length\<close>.\<close>

record warc_record =
  rlength :: int
  refersTo :: string
  header :: "string list"
  warcType :: string
  data :: string

definition empty_record :: warc_record where
  "empty_record = \<lparr>rlength = 0, refersTo = [], header = [], warcType = [], data = []\<rparr>"

subsection \<open>\<^verbatim>\<open>nextRecord\<close>\<close>

text \<open>
  The first loop: skip blank lines up to the marker line. \<open>FReturn e s\<close> is
  \<^verbatim>\<open>return nil, err\<close>, \<open>FBreak line s\<close> the \<^verbatim>\<open>break\<close> with the marker in \<open>line\<close>.
\<close>

datatype first_end = FReturn error string | FBreak string string | FPanic panic

function first_line :: "(string \<Rightarrow> string) \<Rightarrow> string \<Rightarrow> first_end" where
  "first_line trim s =
     (case ReadString s of
        (line, Some e, rest) \<Rightarrow> FReturn e rest
      | (line, None, rest) \<Rightarrow>
          (if trim line = ''WARC/1.0'' then FBreak (trim line) rest
           else if trim line = [] then first_line trim rest
           else FPanic MalformedFirstLine))"
  by pat_completeness auto

lemma ReadString_rest:
  "ReadString s = (line, err, rest) \<Longrightarrow> length rest \<le> length s"
  by (induction s arbitrary: line) (auto split: if_splits prod.splits)

lemma ReadString_consumes:
  "ReadString s = (line, None, rest) \<Longrightarrow> length rest < length s"
  by (induction s arbitrary: line) (auto split: if_splits prod.splits)

termination first_line
  by (relation "measure (\<lambda>(trim, s). length s)") (auto dest: ReadString_consumes [OF sym])

declare first_line.simps [simp del]


text \<open>
  The second loop: the rest of the header. One pass over a non-blank line sets the field
  the line's prefix names, appends the line and counts \<open>failSafe\<close> down.
  \<open>HBreak rec err s\<close> is a \<^verbatim>\<open>break\<close> with the value \<open>err\<close> holds there.
\<close>

datatype header_end =
  HReturn error string | HBreak warc_record "error option" string | HPanic panic

definition header_line :: "string \<Rightarrow> warc_record \<Rightarrow> error + warc_record" where
  "header_line line rec =
     (if HasPrefix line ''WARC-Type: '' then Inr (rec\<lparr>warcType := drop 11 line\<rparr>)
      else if HasPrefix line ''Content-Length: '' then
        (case Atoi (drop 16 line) of
           Inl e \<Rightarrow> Inl e
         | Inr v \<Rightarrow> Inr (rec\<lparr>rlength := v\<rparr>))
      else if HasPrefix line ''WARC-Refers-To: '' then Inr (rec\<lparr>refersTo := drop 16 line\<rparr>)
      else Inr rec)"

function rest_of_header ::
  "(string \<Rightarrow> string) \<Rightarrow> string \<Rightarrow> warc_record \<Rightarrow> int \<Rightarrow> header_end" where
  "rest_of_header trim s rec failSafe =
     (case ReadString s of
        (line, Some e, rest) \<Rightarrow> (if e = EOF then HBreak rec (Some e) rest else HReturn e rest)
      | (line, None, rest) \<Rightarrow>
          (if trim line = [] then HBreak rec None rest
           else (case header_line (trim line) rec of
                   Inl e \<Rightarrow> HReturn e rest
                 | Inr rec' \<Rightarrow>
                     (if failSafe - 1 = 0 then HPanic HitFailsafe
                      else rest_of_header trim rest
                             (rec'\<lparr>header := header rec' @ [trim line]\<rparr>) (failSafe - 1)))))"
  by pat_completeness auto
termination
  by (relation "measure (\<lambda>(trim, s, rec, failSafe). length s)")
     (auto dest: ReadString_consumes [OF sym])

declare rest_of_header.simps [simp del]

text \<open>
  The third loop: read \<^verbatim>\<open>rec.length\<close> bytes into \<^verbatim>\<open>rec.data\<close>. \<open>DReturn e s\<close> is
  \<^verbatim>\<open>return nil, err\<close>; \<open>DEnd bytes buf s\<close> is the end of the loop with \<open>buf\<close> the bytes stored.
\<close>

datatype data_end = DReturn error string | DEnd nat string string

lemma Read_some:
  "Read want s = (n, None, chunk, rest) \<Longrightarrow> 0 < want \<Longrightarrow>
     0 < n \<and> n \<le> want \<and> chunk = take n s \<and> rest = drop n s"
  by (cases s) (auto simp: Read_def Let_def min_def split: if_splits)

function read_data :: "nat \<Rightarrow> nat \<Rightarrow> string \<Rightarrow> string \<Rightarrow> data_end" where
  "read_data len bytes buf s =
     (if bytes < len then
        (case Read (len - bytes) s of
           (n, Some e, chunk, rest) \<Rightarrow> DReturn e rest
         | (n, None, chunk, rest) \<Rightarrow> read_data len (bytes + n) (buf @ chunk) rest)
      else DEnd bytes buf s)"
  by pat_completeness auto
termination
  by (relation "measure (\<lambda>(len, bytes, buf, s). len - bytes)")
     (auto dest!: Read_some [OF sym])

declare read_data.simps [simp del]

text \<open>
  \<open>NReturn r err s\<close> is a return of \<^verbatim>\<open>(r, err)\<close> with the stream at \<open>s\<close>; \<open>r = None\<close> is the
  nil pointer. A negative \<^verbatim>\<open>rec.length\<close> makes \<^verbatim>\<open>make([]byte, rec.length)\<close> panic.
\<close>

datatype next_end = NReturn "warc_record option" "error option" string | NPanic panic

definition nextRecord :: "(string \<Rightarrow> string) \<Rightarrow> string \<Rightarrow> next_end" where
  "nextRecord trim s =
     (case first_line trim s of
        FReturn e s1 \<Rightarrow> NReturn None (Some e) s1
      | FPanic p \<Rightarrow> NPanic p
      | FBreak line s1 \<Rightarrow>
          (case rest_of_header trim s1 (empty_record\<lparr>header := [line]\<rparr>) 100 of
             HReturn e s2 \<Rightarrow> NReturn None (Some e) s2
           | HPanic p \<Rightarrow> NPanic p
           | HBreak rec err s2 \<Rightarrow>
               (if rlength rec = 0 then NPanic NoRecordLength
                else if rlength rec < 0 then NPanic MakesliceLenOutOfRange
                else (case read_data (nat (rlength rec)) 0 [] s2 of
                        DReturn e s3 \<Rightarrow> NReturn None (Some e) s3
                      | DEnd bytes dat s3 \<Rightarrow>
                          (if int bytes \<noteq> rlength rec then NPanic (OnlyRead bytes (rlength rec))
                           else NReturn (Some (rec\<lparr>data := dat\<rparr>)) err s3)))))"

subsection \<open>\<^verbatim>\<open>readMeta\<close>\<close>

text \<open>
  The set of identifiers is a Go \<^verbatim>\<open>map[string]bool\<close>; indexing it with a missing key
  gives \<^verbatim>\<open>false\<close>.
\<close>

type_synonym recordSet = "string \<rightharpoonup> bool"

definition index_set :: "recordSet \<Rightarrow> string \<Rightarrow> bool" where
  "index_set ids k = (case ids k of None \<Rightarrow> False | Some b \<Rightarrow> b)"

text \<open>
  The lines \<^verbatim>\<open>readMeta\<close> prints: an empty line, a file name, or an offset with a deflate
  length.
\<close>

datatype out_line = Blank | Name string | OffsetLength int int

text \<open>
  The body of the loop from the first \<^verbatim>\<open>continue\<close> on, for a record \<open>rec\<close>.
  \<^verbatim>\<open>json.Unmarshal\<close> is the parameter \<open>unmarshal\<close>: it gets the record's data and the
  variable \<^verbatim>\<open>meta\<close>, which the loop never resets, and gives an error or the value of
  \<^verbatim>\<open>meta\<close> after decoding. \<open>Next meta filename out\<close>: the loop goes on with these
  values of the two variables after printing \<open>out\<close>.
\<close>

datatype body_end = Next WarcMeta string "out_line list" | BFatal error | BPanic panic

definition handle_record ::
  "(string \<Rightarrow> WarcMeta \<Rightarrow> error + WarcMeta) \<Rightarrow> recordSet \<Rightarrow> warc_record \<Rightarrow> WarcMeta \<Rightarrow> string
     \<Rightarrow> body_end" where
  "handle_record unmarshal ids rec meta filename =
     (if warcType rec \<noteq> ''metadata'' then Next meta filename []
      else if refersTo rec = [] then BPanic NoRefersTo
      else if \<not> index_set ids (refersTo rec) then Next meta filename []
      else (case unmarshal (data rec) meta of
              Inl e \<Rightarrow> BFatal e
            | Inr meta' \<Rightarrow>
                (if Type (HeaderMetaData (Envelope meta')) = ''response'' then
                   (let status = Status (ResponseInfo (ResponseMeta (PayloadMetaData (Envelope meta'))))
                    in if status \<noteq> 200 then Next meta' filename []
                       else (let contentType =
                                   ContentType (Headers (ResponseMeta (PayloadMetaData (Envelope meta'))))
                             in if Contains contentType ''text/html'' then
                                  (if filename \<noteq> Filename (Container meta') then
                                     Next meta' (Filename (Container meta'))
                                       ((if filename \<noteq> [] then [Blank] else [])
                                        @ [Name (Filename (Container meta')),
                                           OffsetLength (Offset (Container meta'))
                                             (DeflateLength (GzipMeta (Container meta')))])
                                   else
                                     Next meta' filename
                                       [OffsetLength (Offset (Container meta'))
                                          (DeflateLength (GzipMeta (Container meta')))])
                                else Next meta' filename []))
                 else Next meta' filename [])))"


text \<open>A record returned by \<open>nextRecord\<close> has taken bytes off the stream.\<close>

lemma first_line_consumes:
  "first_line trim s = FBreak line s1 \<Longrightarrow> length s1 < length s"
proof (induction trim s rule: first_line.induct)
  case (1 trim s)
  obtain l err rest where rs: "ReadString s = (l, err, rest)"
    by (cases "ReadString s") auto
  show ?case
  proof (cases err)
    case (Some e)
    with rs "1.prems" show ?thesis by (simp add: first_line.simps)
  next
    case None
    with rs have less: "length rest < length s"
      by (auto dest: ReadString_consumes)
    show ?thesis
    proof (cases "trim l = ''WARC/1.0''")
      case True
      with "1.prems" rs None less show ?thesis by (simp add: first_line.simps)
    next
      case False
      with "1.prems" rs None have blank: "trim l = []" and call: "first_line trim rest = FBreak line s1"
        by (auto simp: first_line.simps [of trim s] split: if_splits)
      from "1.IH" [OF rs [symmetric] refl None False blank call] less
      show ?thesis by simp
    qed
  qed
qed

lemma rest_of_header_rest:
  "rest_of_header trim s rec failSafe = HBreak rec' err s2 \<Longrightarrow> length s2 \<le> length s"
proof (induction trim s rec failSafe rule: rest_of_header.induct)
  case (1 trim s rec failSafe)
  note def = rest_of_header.simps [of trim s rec failSafe]
  obtain l e rest where rs: "ReadString s = (l, e, rest)"
    by (cases "ReadString s") auto
  then have le: "length rest \<le> length s"
    by (rule ReadString_rest)
  show ?case
  proof (cases e)
    case (Some x)
    with rs "1.prems" le show ?thesis by (auto simp: def split: if_splits)
  next
    case None
    show ?thesis
    proof (cases "trim l = []")
      case True
      with rs None "1.prems" le show ?thesis by (simp add: def)
    next
      case False
      show ?thesis
      proof (cases "header_line (trim l) rec")
        case (Inl a)
        with rs None False "1.prems" show ?thesis by (simp add: def)
      next
        case (Inr r)
        with rs None False "1.prems" have ne: "failSafe - 1 \<noteq> 0"
          and call: "rest_of_header trim rest (r\<lparr>header := header r @ [trim l]\<rparr>) (failSafe - 1)
                       = HBreak rec' err s2"
          by (auto simp: def split: if_splits)
        from "1.IH" [OF rs [symmetric] refl None False Inr ne call] le
        show ?thesis by simp
      qed
    qed
  qed
qed

lemma read_data_rest:
  "read_data len bytes buf s = DEnd bytes' buf' s3 \<Longrightarrow> length s3 \<le> length s"
proof (induction len bytes buf s rule: read_data.induct)
  case (1 len bytes buf s)
  note def = read_data.simps [of len bytes buf s]
  show ?case
  proof (cases "bytes < len")
    case False
    with "1.prems" show ?thesis by (simp add: def)
  next
    case True
    obtain n e chunk rest where rd: "Read (len - bytes) s = (n, e, chunk, rest)"
      by (cases "Read (len - bytes) s") auto
    show ?thesis
    proof (cases e)
      case (Some x)
      with True rd "1.prems" show ?thesis by (simp add: def)
    next
      case None
      with True rd "1.prems" have call: "read_data len (bytes + n) (buf @ chunk) rest = DEnd bytes' buf' s3"
        by (simp add: def)
      from rd None True have "rest = drop n s"
        using Read_some [of "len - bytes" s n chunk rest] by simp
      with "1.IH" [OF True rd [symmetric] refl None refl call] show ?thesis
        by simp
    qed
  qed
qed

lemma nextRecord_consumes:
  "nextRecord trim s = NReturn (Some rec) err s' \<Longrightarrow> length s' < length s"
  unfolding nextRecord_def
  by (auto split: first_end.splits header_end.splits data_end.splits if_splits
           dest!: first_line_consumes rest_of_header_rest read_data_rest)

text \<open>
  The loop of \<^verbatim>\<open>readMeta\<close>, with the variables \<^verbatim>\<open>meta\<close> and \<^verbatim>\<open>filename\<close> and the lines
  printed so far. \<open>Finished\<close> is the \<^verbatim>\<open>break\<close> at \<^verbatim>\<open>io.EOF\<close> followed by the return,
  \<open>Fatal\<close> is \<^verbatim>\<open>log.Fatal\<close>, \<open>Panicked\<close> a panic; each carries the lines printed before.
\<close>

datatype exit = Finished "out_line list" | Fatal error "out_line list" | Panicked panic "out_line list"

function readMeta ::
  "(string \<Rightarrow> string) \<Rightarrow> (string \<Rightarrow> WarcMeta \<Rightarrow> error + WarcMeta) \<Rightarrow> recordSet \<Rightarrow> string
     \<Rightarrow> WarcMeta \<Rightarrow> string \<Rightarrow> out_line list \<Rightarrow> exit" where
  "readMeta trim unmarshal ids s meta filename out =
     (case nextRecord trim s of
        NPanic p \<Rightarrow> Panicked p out
      | NReturn r (Some e) s' \<Rightarrow> (if e = EOF then Finished out else Fatal e out)
      | NReturn None None s' \<Rightarrow> Panicked NilDereference out
      | NReturn (Some rec) None s' \<Rightarrow>
          (case handle_record unmarshal ids rec meta filename of
             BFatal e \<Rightarrow> Fatal e out
           | BPanic p \<Rightarrow> Panicked p out
           | Next meta' filename' ls \<Rightarrow>
               readMeta trim unmarshal ids s' meta' filename' (out @ ls)))"
  by pat_completeness auto
termination
  by (relation "measure (\<lambda>(trim, unmarshal, ids, s, meta, filename, out). length s)")
     (auto dest: nextRecord_consumes)

declare readMeta.simps [simp del]


subsection \<open>Streams and header lengths\<close>

text \<open>
  What a header declares as its length: \<^verbatim>\<open>rec.length\<close> starts at 0 and every line with the
  prefix \<^verbatim>\<open>Content-Length: \<close> whose rest is a number replaces it, so the last such line
  decides and a header without one declares 0.
\<close>

definition length_step :: "int \<Rightarrow> string \<Rightarrow> int" where
  "length_step v l =
     (if HasPrefix l ''Content-Length: '' then
        (case Atoi (drop 16 l) of Inl e \<Rightarrow> v | Inr v' \<Rightarrow> v')
      else v)"

definition declared_length :: "string list \<Rightarrow> int" where
  "declared_length hs = foldl length_step 0 hs"

text \<open>
  Three streams of one record each: a body of 3 bytes under a declared length of 10, a
  header without a length, and a header that declares the length 0.
\<close>

definition truncated_stream :: string where
  "truncated_stream = ''WARC/1.0'' @ [LF] @ ''Content-Length: 10'' @ [LF] @ [LF] @ ''abc''"

definition lengthless_stream :: string where
  "lengthless_stream = ''WARC/1.0'' @ [LF] @ ''WARC-Type: metadata'' @ [LF] @ [LF] @ ''abc''"

definition zero_length_stream :: string where
  "zero_length_stream = ''WARC/1.0'' @ [LF] @ ''Content-Length: 0'' @ [LF] @ [LF] @ ''abc''"

subsection \<open>An example of correlation\<close>

text \<open>
  The zero value of \<^verbatim>\<open>WarcMeta\<close>, a decoded response with a given status and content type,
  a decoder that knows two payloads, the reference set \<open>{id-1, id-2}\<close>, and a metadata
  record that refers to \<open>id-1\<close>.
\<close>

definition zero_meta :: WarcMeta where
  "zero_meta =
     \<lparr>Envelope =
        \<lparr>Format = [], HeaderLength = 0, Digest = [], ContentLength = 0,
         HeaderMetaData =
           \<lparr>Type = [], Length = 0, RecordId = [], Uri = [], MetaContentType = []\<rparr>,
         PayloadMetaData =
           \<lparr>ResponseMeta =
              \<lparr>ResponseInfo = \<lparr>Status = 0\<rparr>, Headers = \<lparr>ContentType = []\<rparr>\<rparr>\<rparr>\<rparr>,
      Container =
        \<lparr>Compressed = False, Offset = 0, Filename = [],
         GzipMeta =
           \<lparr>FooterLength = 0, DeflateLength = 0, GzipHeaderLength = 0, InflatedLength = 0\<rparr>\<rparr>\<rparr>"

definition response_meta :: "int \<Rightarrow> string \<Rightarrow> WarcMeta" where
  "response_meta status ctype =
     \<lparr>Envelope =
        \<lparr>Format = ''WARC'', HeaderLength = 0, Digest = [], ContentLength = 0,
         HeaderMetaData =
           \<lparr>Type = ''response'', Length = 0, RecordId = [], Uri = [], MetaContentType = []\<rparr>,
         PayloadMetaData =
           \<lparr>ResponseMeta =
              \<lparr>ResponseInfo = \<lparr>Status = status\<rparr>, Headers = \<lparr>ContentType = ctype\<rparr>\<rparr>\<rparr>\<rparr>,
      Container =
        \<lparr>Compressed = True, Offset = 1024, Filename = ''crawl.warc.gz'',
         GzipMeta =
           \<lparr>FooterLength = 8, DeflateLength = 512, GzipHeaderLength = 10,
            InflatedLength = 2048\<rparr>\<rparr>\<rparr>"

definition example_unmarshal :: "string \<Rightarrow> WarcMeta \<Rightarrow> error + WarcMeta" where
  "example_unmarshal d m =
     (if d = ''ok'' then Inr (response_meta 200 ''text/html; charset=UTF-8'')
      else if d = ''missing'' then Inr (response_meta 404 ''text/html'')
      else Inl ErrJSON)"

definition example_ids :: recordSet where
  "example_ids = [''id-1'' \<mapsto> True, ''id-2'' \<mapsto> True]"


section \<open>The classifiers\<close>

subsection \<open>Runes of a string\<close>

text \<open>
  A \<^verbatim>\<open>for k, ru := range s\<close> loop decodes the bytes of \<open>s\<close> as UTF-8. \<open>decoderune s\<close> is the
  rune at the head of a non-empty \<open>s\<close> and the number of bytes it takes: a well-formed
  encoding of two, three or four bytes gives its code point, anything else gives
  \<^verbatim>\<open>U+FFFD\<close> and takes one byte (the runtime's \<^verbatim>\<open>decoderune\<close>).
\<close>

type_synonym rune = nat

definition RuneError :: rune where
  "RuneError = 0xFFFD"

definition continuation :: "char \<Rightarrow> bool" where
  "continuation b = (0x80 \<le> (of_char b :: nat) \<and> (of_char b :: nat) \<le> 0xBF)"

fun decoderune :: "string \<Rightarrow> rune \<times> nat" where
  "decoderune [] = (RuneError, 0)"
| "decoderune (b0 # s) =
     (if (of_char b0 :: nat) < 0x80 then (of_char b0, 1)
      else if 0xC0 \<le> (of_char b0 :: nat) \<and> (of_char b0 :: nat) < 0xE0 then
        (case s of
           b1 # _ \<Rightarrow>
             (let r = (of_char b0 mod 32) * 64 + of_char b1 mod 64
              in if continuation b1 \<and> 0x7F < r then (r, 2) else (RuneError, 1))
         | _ \<Rightarrow> (RuneError, 1))
      else if 0xE0 \<le> (of_char b0 :: nat) \<and> (of_char b0 :: nat) < 0xF0 then
        (case s of
           b1 # b2 # _ \<Rightarrow>
             (let r = (of_char b0 mod 16) * 4096 + (of_char b1 mod 64) * 64 + of_char b2 mod 64
              in if continuation b1 \<and> continuation b2 \<and> 0x7FF < r
                    \<and> \<not> (0xD800 \<le> r \<and> r \<le> 0xDFFF)
                 then (r, 3) else (RuneError, 1))
         | _ \<Rightarrow> (RuneError, 1))
      else if 0xF0 \<le> (of_char b0 :: nat) \<and> (of_char b0 :: nat) < 0xF8 then
        (case s of
           b1 # b2 # b3 # _ \<Rightarrow>
             (let r = (of_char b0 mod 8) * 262144 + (of_char b1 mod 64) * 4096
                        + (of_char b2 mod 64) * 64 + of_char b3 mod 64
              in if continuation b1 \<and> continuation b2 \<and> continuation b3
                    \<and> 0xFFFF < r \<and> r \<le> 0x10FFFF
                 then (r, 4) else (RuneError, 1))
         | _ \<Rightarrow> (RuneError, 1))
      else (RuneError, 1))"


lemma decoderune_width:
  "s \<noteq> [] \<Longrightarrow> 1 \<le> snd (decoderune s) \<and> snd (decoderune s) \<le> length s"
  by (cases s) (auto simp: Let_def split: list.splits)

text \<open>The runes of a string in order: what \<^verbatim>\<open>for _, ru := range s\<close> goes through.\<close>

function runes_of :: "string \<Rightarrow> rune list" where
  "runes_of s =
     (if s = [] then []
      else fst (decoderune s) # runes_of (drop (snd (decoderune s)) s))"
  by pat_completeness auto
termination
  by (relation "measure length") (use decoderune_width in \<open>auto simp: Suc_le_eq\<close>)

declare runes_of.simps [simp del]

text \<open>
  The set of target characters is a Go \<^verbatim>\<open>map[rune]bool\<close>; the programs only ask whether a
  rune is a key of it.
\<close>

type_synonym runemap = "rune \<rightharpoonup> bool"

definition is_key :: "runemap \<Rightarrow> rune \<Rightarrow> bool" where
  "is_key chinese_chars ru = (chinese_chars ru \<noteq> None)"

text \<open>
  What a call of \<^verbatim>\<open>process\<close> ends in: a string sent on the channel or a panic, which
  ends the whole program.
\<close>

datatype sent = Sent string | Crash panic

text \<open>
  The end of each regime, \<^verbatim>\<open>if ratio > threshold { ch <- x } else { ch <- "" }\<close>. The
  programs compute \<^verbatim>\<open>ratio := c/float64(n)\<close> in 64-bit floating point, with \<open>c\<close> a count
  kept in a float and \<open>n\<close> at most 500; the model computes the quotient of the two counts
  in the reals. The two agree on the comparison: a quotient equal to the threshold rounds
  to the float the threshold's literal denotes, and any other quotient of such counts is
  further from the threshold than the rounding moves it. Where \<open>n = 0\<close> the program's
  ratio is NaN, which is not greater than the threshold, and the model's is 0.
\<close>

definition decide :: "real \<Rightarrow> real \<Rightarrow> string \<Rightarrow> sent" where
  "decide ratio threshold x = (if ratio > threshold then Sent x else Sent [])"

subsection \<open>The byte-offset classifier: \<^verbatim>\<open>detect-chinese/detect_chinese.go\<close>\<close>








text \<open>
  The sampled regime. \<open>draws i\<close> is what the \<open>i\<close>-th call of \<^verbatim>\<open>rand.Int()\<close> in this task
  returns, a non-negative \<^verbatim>\<open>int\<close>; the indices are the draws modulo the number of bytes,
  sorted.
\<close>

definition sample_indices :: "(nat \<Rightarrow> nat) \<Rightarrow> nat \<Rightarrow> nat \<Rightarrow> int list" where
  "sample_indices draws n len = sort (map (\<lambda>i. int (draws i mod len)) [0..<n])"








subsection \<open>The rune-index classifier\<close>

text \<open>The loop of \<^verbatim>\<open>recordBody\<close>; \<open>None\<close> is \<^verbatim>\<open>return nil\<close>.\<close>

fun recordBody_lines :: "string list \<Rightarrow> string list \<Rightarrow> string list option" where
  "recordBody_lines [] body = Some body"
| "recordBody_lines (line # r) body =
     (if line = [] then recordBody_lines r body
      else if 4 \<le> length line \<and> take 4 line = ''WARC'' then
        (if line = ''WARC-Type: warcinfo'' then None else recordBody_lines r body)
      else if 8 \<le> length line \<and> take 8 line = ''Content-'' then recordBody_lines r body
      else recordBody_lines r (body @ [line]))"

definition recordBody :: "string list \<Rightarrow> string list option" where
  "recordBody r = recordBody_lines r []"

text \<open>The number of target characters among \<open>runes\<close>: the loop of the exhaustive regime.\<close>

fun count_keys :: "runemap \<Rightarrow> rune list \<Rightarrow> nat \<Rightarrow> nat" where
  "count_keys chinese_chars [] c = c"
| "count_keys chinese_chars (ru # runes) c =
     count_keys chinese_chars runes (if is_key chinese_chars ru then c + 1 else c)"

definition exhaustive_runes :: "runemap \<Rightarrow> string \<Rightarrow> sent" where
  "exhaustive_runes chinese_chars body_str =
     decide (real (count_keys chinese_chars (runes_of body_str) 0)
               / real (length (runes_of body_str))) (3 / 10) body_str"

text \<open>
  The loop \<^verbatim>\<open>for _, idx := range sample_indices\<close> with \<^verbatim>\<open>runes[idx]\<close>, which panics out of
  range.
\<close>

fun lookup_samples :: "runemap \<Rightarrow> rune list \<Rightarrow> int list \<Rightarrow> nat \<Rightarrow> panic + nat" where
  "lookup_samples chinese_chars runes [] c = Inr c"
| "lookup_samples chinese_chars runes (idx # si) c =
     (if idx < 0 \<or> int (length runes) \<le> idx then Inl IndexOutOfRange
      else lookup_samples chinese_chars runes si
             (if is_key chinese_chars (runes ! nat idx) then c + 1 else c))"

definition sampled_runes :: "runemap \<Rightarrow> (nat \<Rightarrow> nat) \<Rightarrow> string \<Rightarrow> sent" where
  "sampled_runes chinese_chars draws body_str =
     (case lookup_samples chinese_chars (runes_of body_str)
             (sample_indices draws 200 (length (runes_of body_str))) 0 of
        Inl p \<Rightarrow> Crash p
      | Inr c \<Rightarrow> decide (real c / real (200 :: nat)) (3 / 10) body_str)"

definition process_runes :: "runemap \<Rightarrow> (nat \<Rightarrow> nat) \<Rightarrow> string list \<Rightarrow> sent" where
  "process_runes chinese_chars draws r =
     (case recordBody r of
        None \<Rightarrow> Sent []
      | Some body \<Rightarrow>
          (if length (runes_of (Join body '' '')) \<le> 200 then
             exhaustive_runes chinese_chars (Join body '' '')
           else sampled_runes chinese_chars draws (Join body '' '')))"

subsection \<open>The dispatcher: \<^verbatim>\<open>readWarc\<close>\<close>

text \<open>
  The loop of \<^verbatim>\<open>readWarc\<close>, the same in the two programs, with the record \<open>rec\<close> in the
  making, the records \<open>tasks\<close> handed so far to \<^verbatim>\<open>go process(rec, ch)\<close>, oldest first, and
  \<^verbatim>\<open>responses_to_expect\<close>. The result is these three at the \<^verbatim>\<open>break\<close>; the last is then
  sent on \<^verbatim>\<open>count_ch\<close>.
\<close>

function readWarc_loop ::
  "(string \<Rightarrow> string) \<Rightarrow> string \<Rightarrow> string list \<Rightarrow> string list list \<Rightarrow> nat
     \<Rightarrow> string list list \<times> string list \<times> nat" where
  "readWarc_loop trim s rec tasks responses_to_expect =
     (case ReadString s of
        (line, Some e, rest) \<Rightarrow> (tasks, rec, responses_to_expect)
      | (line, None, rest) \<Rightarrow>
          (if trim line = ''WARC/1.0'' then
             readWarc_loop trim rest ([] @ [trim line]) (tasks @ [rec]) (responses_to_expect + 1)
           else readWarc_loop trim rest (rec @ [trim line]) tasks responses_to_expect))"
  by pat_completeness auto
termination
  by (relation "measure (\<lambda>(trim, s, rec, tasks, n). length s)")
     (auto dest: ReadString_consumes [OF sym])

declare readWarc_loop.simps [simp del]

definition readWarc :: "(string \<Rightarrow> string) \<Rightarrow> string \<Rightarrow> string list list \<times> string list \<times> nat" where
  "readWarc trim s = readWarc_loop trim s [] [] 0"

text \<open>The lines the loop sees: every line that ends in a line feed, trimmed.\<close>

function lines_read :: "(string \<Rightarrow> string) \<Rightarrow> string \<Rightarrow> string list" where
  "lines_read trim s =
     (case ReadString s of
        (line, Some e, rest) \<Rightarrow> []
      | (line, None, rest) \<Rightarrow> trim line # lines_read trim rest)"
  by pat_completeness auto
termination
  by (relation "measure (\<lambda>(trim, s). length s)") (auto dest: ReadString_consumes [OF sym])

declare lines_read.simps [simp del]

text \<open>
  The loop as a function of the lines it sees, and a stream of two records after one line
  of other text.
\<close>

fun dispatch ::
  "string list \<Rightarrow> string list \<Rightarrow> string list list \<Rightarrow> nat \<Rightarrow> string list list \<times> string list \<times> nat" where
  "dispatch [] rec tasks n = (tasks, rec, n)"
| "dispatch (l # ls) rec tasks n =
     (if l = ''WARC/1.0'' then dispatch ls [l] (tasks @ [rec]) (n + 1)
      else dispatch ls (rec @ [l]) tasks n)"

definition two_records :: string where
  "two_records = ''junk'' @ [LF] @ ''WARC/1.0'' @ [LF] @ ''a'' @ [LF] @ ''WARC/1.0'' @ [LF]
                   @ ''b'' @ [LF]"

subsection \<open>Lines of a record and example inputs of the classifiers\<close>







section \<open>Properties of the collector\<close>

text \<open>
  C1 (the collector stops exactly after k results and the announced total k, whatever the
  interleaving). With one dispatched task (k = 1) the code does otherwise in both possible
  orders. If the total arrives first, the loop breaks at once: \<open>received_count\<close> starts at
  1 and already equals the total, so the only result is never received nor printed. If the
  result arrives first, \<open>received_count\<close> is 2 when the total 1 arrives, the two never
  become equal, and the collector waits in \<^verbatim>\<open>select\<close> for ever.
\<close>

theorem C1_collector_one_task:
  "printResults println_offsets [Count 1, Result ''id-1''] =
     Done \<lparr>expecting = 1, received_count = 1, printed = []\<rparr> [Result ''id-1'']
   \<and> printResults println_offsets [Result ''id-1'', Count 1] =
     Blocked \<lparr>expecting = 1, received_count = 2, printed = [''id-1'']\<rparr>"
  by (simp add: printResults_def collector_init_def println_offsets_def)

section \<open>Properties of the record reader\<close>

lemmas run_simps = first_line.simps rest_of_header.simps read_data.simps Read_def LF_def
  TrimSpace_ascii_def ascii_space_def header_line_def HasPrefix_def Atoi_def is_digit_def
  empty_record_def nextRecord_def

lemma first_line_marker:
  "first_line trim s = FBreak line s1 \<Longrightarrow> line = ''WARC/1.0''"
proof (induction trim s rule: first_line.induct)
  case (1 trim s)
  obtain l err rest where rs: "ReadString s = (l, err, rest)"
    by (cases "ReadString s") auto
  show ?case
  proof (cases err)
    case (Some e)
    with rs "1.prems" show ?thesis by (simp add: first_line.simps)
  next
    case None
    show ?thesis
    proof (cases "trim l = ''WARC/1.0''")
      case True
      with "1.prems" rs None show ?thesis by (simp add: first_line.simps)
    next
      case False
      with "1.prems" rs None have blank: "trim l = []" and call: "first_line trim rest = FBreak line s1"
        by (auto simp: first_line.simps [of trim s] split: if_splits)
      from "1.IH" [OF rs [symmetric] refl None False blank call]
      show ?thesis .
    qed
  qed
qed

lemma prefixes_differ:
  "HasPrefix l ''WARC-Type: '' \<Longrightarrow> \<not> HasPrefix l ''Content-Length: ''"
  by (cases l) (auto simp: HasPrefix_def)

lemma header_line_length:
  "header_line l rec = Inr rec' \<Longrightarrow>
     rlength rec' = length_step (rlength rec) l \<and> header rec' = header rec"
  by (auto simp: header_line_def length_step_def prefixes_differ split: if_splits sum.splits)

lemma rest_of_header_length:
  "rest_of_header trim s rec failSafe = HBreak rec' err s2 \<Longrightarrow>
     \<exists>ls. header rec' = header rec @ ls \<and> rlength rec' = foldl length_step (rlength rec) ls"
proof (induction trim s rec failSafe rule: rest_of_header.induct)
  case (1 trim s rec failSafe)
  note def = rest_of_header.simps [of trim s rec failSafe]
  obtain l e rest where rs: "ReadString s = (l, e, rest)"
    by (cases "ReadString s") auto
  show ?case
  proof (cases e)
    case (Some x)
    with rs "1.prems" have "rec' = rec" by (auto simp: def split: if_splits)
    then show ?thesis by simp
  next
    case None
    show ?thesis
    proof (cases "trim l = []")
      case True
      with rs None "1.prems" have "rec' = rec" by (simp add: def)
      then show ?thesis by simp
    next
      case False
      show ?thesis
      proof (cases "header_line (trim l) rec")
        case (Inl a)
        with rs None False "1.prems" show ?thesis by (simp add: def)
      next
        case (Inr r)
        with rs None False "1.prems" have ne: "failSafe - 1 \<noteq> 0"
          and call: "rest_of_header trim rest (r\<lparr>header := header r @ [trim l]\<rparr>) (failSafe - 1)
                       = HBreak rec' err s2"
          by (auto simp: def split: if_splits)
        from "1.IH" [OF rs [symmetric] refl None False Inr ne call]
        obtain ls where h: "header rec' = (header r @ [trim l]) @ ls"
          and v: "rlength rec' = foldl length_step (rlength r) ls"
          by auto
        from header_line_length [OF Inr] h v
        have "header rec' = header rec @ (trim l # ls)"
          and "rlength rec' = foldl length_step (rlength rec) (trim l # ls)"
          by simp_all
        then show ?thesis by blast
      qed
    qed
  qed
qed

lemma no_content_length:
  "\<forall>l\<in>set hs. \<not> HasPrefix l ''Content-Length: '' \<Longrightarrow> foldl length_step v hs = v"
  by (induction hs arbitrary: v) (auto simp: length_step_def)

text \<open>
  C8 (a record whose header declares the length 0, or no length at all, is a fatal framing
  error, never a record with an empty body). Once the marker line and the header are read
  and the header declares 0, \<open>nextRecord\<close> panics with \<^verbatim>\<open>No record length\<close>, and
  \<open>readMeta\<close>, wherever it stands in its stream and whatever it has printed, ends in that
  panic.
\<close>

theorem C8_no_length:
  assumes fl: "first_line trim s = FBreak line s1"
    and hd: "rest_of_header trim s1 (empty_record\<lparr>header := [line]\<rparr>) 100 = HBreak rec err s2"
    and zero: "declared_length (header rec) = 0"
  shows "nextRecord trim s = NPanic NoRecordLength
         \<and> readMeta trim unmarshal ids s meta filename out = Panicked NoRecordLength out"
proof -
  from first_line_marker [OF fl] have line: "line = ''WARC/1.0''" .
  from rest_of_header_length [OF hd] obtain ls where h: "header rec = [line] @ ls"
    and v: "rlength rec = foldl length_step 0 ls"
    by (auto simp: empty_record_def)
  have "length_step 0 line = 0"
    by (simp add: line length_step_def HasPrefix_def)
  with zero h v have "rlength rec = 0"
    by (simp add: declared_length_def)
  with fl hd have nr: "nextRecord trim s = NPanic NoRecordLength"
    by (simp add: nextRecord_def)
  then show ?thesis
    by (simp add: readMeta.simps [of _ _ _ s])
qed

theorem C8_no_length_witness:
  "readMeta TrimSpace_ascii example_unmarshal example_ids lengthless_stream zero_meta [] []
     = Panicked NoRecordLength []
   \<and> readMeta TrimSpace_ascii example_unmarshal example_ids zero_length_stream zero_meta [] []
     = Panicked NoRecordLength []"
proof -
  have a1: "first_line TrimSpace_ascii lengthless_stream
              = FBreak ''WARC/1.0'' (''WARC-Type: metadata'' @ [LF] @ [LF] @ ''abc'')"
    by (simp add: lengthless_stream_def run_simps)
  have a2: "rest_of_header TrimSpace_ascii (''WARC-Type: metadata'' @ [LF] @ [LF] @ ''abc'')
              (empty_record\<lparr>header := [''WARC/1.0'']\<rparr>) 100
            = HBreak \<lparr>rlength = 0, refersTo = [], header = [''WARC/1.0'', ''WARC-Type: metadata''],
                warcType = ''metadata'', data = []\<rparr> None ''abc''"
    by (simp add: run_simps)
  have a3: "declared_length [''WARC/1.0'', ''WARC-Type: metadata''] = 0"
    by (simp add: declared_length_def length_step_def HasPrefix_def)
  have b1: "first_line TrimSpace_ascii zero_length_stream
              = FBreak ''WARC/1.0'' (''Content-Length: 0'' @ [LF] @ [LF] @ ''abc'')"
    by (simp add: zero_length_stream_def run_simps)
  have b2: "rest_of_header TrimSpace_ascii (''Content-Length: 0'' @ [LF] @ [LF] @ ''abc'')
              (empty_record\<lparr>header := [''WARC/1.0'']\<rparr>) 100
            = HBreak \<lparr>rlength = 0, refersTo = [], header = [''WARC/1.0'', ''Content-Length: 0''],
                warcType = [], data = []\<rparr> None ''abc''"
    by (simp add: run_simps)
  have b3: "declared_length [''WARC/1.0'', ''Content-Length: 0''] = 0"
    by (simp add: declared_length_def length_step_def HasPrefix_def Atoi_def is_digit_def)
  from C8_no_length [OF a1 a2] a3 C8_no_length [OF b1 b2] b3 show ?thesis
    by simp
qed

text \<open>After the third loop \<^verbatim>\<open>bytes\<close> equals \<^verbatim>\<open>rec.length\<close>: the panic that follows it is dead.\<close>

lemma read_data_bytes:
  "read_data len bytes buf s = DEnd bytes' buf' s' \<Longrightarrow> bytes \<le> len \<Longrightarrow> bytes' = len"
proof (induction len bytes buf s rule: read_data.induct)
  case (1 len bytes buf s)
  note def = read_data.simps [of len bytes buf s]
  show ?case
  proof (cases "bytes < len")
    case False
    with "1.prems" show ?thesis by (simp add: def)
  next
    case True
    obtain n e chunk rest where rd: "Read (len - bytes) s = (n, e, chunk, rest)"
      by (cases "Read (len - bytes) s") auto
    show ?thesis
    proof (cases e)
      case (Some x)
      with True rd "1.prems" show ?thesis by (simp add: def)
    next
      case None
      with True rd "1.prems" have call: "read_data len (bytes + n) (buf @ chunk) rest = DEnd bytes' buf' s'"
        by (simp add: def)
      from rd None True have "n \<le> len - bytes"
        using Read_some [of "len - bytes" s n chunk rest] by simp
      with True have "bytes + n \<le> len" by simp
      from "1.IH" [OF True rd [symmetric] refl None refl call this] show ?thesis .
    qed
  qed
qed

lemma truncated_next:
  "nextRecord TrimSpace_ascii truncated_stream = NReturn None (Some EOF) []"
  by (simp add: truncated_stream_def run_simps)

text \<open>
  C2 (a stream that ends inside a record body makes the reader fail and the process abort;
  truncation is never a normal end of stream). On \<open>truncated_stream\<close> the header declares 10
  bytes and 3 follow. \<^verbatim>\<open>reader.Read\<close> hands over the 3 bytes, the next call returns
  \<^verbatim>\<open>io.EOF\<close>, \<open>nextRecord\<close> returns \<^verbatim>\<open>(nil, io.EOF)\<close>, and \<open>readMeta\<close> takes that for the end
  of the stream: it breaks out of its loop and returns, with nothing printed for the record
  and no abort.
\<close>

theorem C2_truncated_body_ends_normally:
  "nextRecord TrimSpace_ascii truncated_stream = NReturn None (Some EOF) []
   \<and> readMeta TrimSpace_ascii unmarshal ids truncated_stream meta filename out = Finished out"
  by (simp add: readMeta.simps [of _ _ _ truncated_stream] truncated_next)

section \<open>Properties of the correlator\<close>



section \<open>Properties of the dispatcher\<close>

lemma readWarc_loop_dispatch:
  "readWarc_loop trim s rec tasks n = dispatch (lines_read trim s) rec tasks n"
proof (induction trim s rec tasks n rule: readWarc_loop.induct)
  case (1 trim s rec tasks n)
  obtain l e rest where rs: "ReadString s = (l, e, rest)"
    by (cases "ReadString s") auto
  show ?case
  proof (cases e)
    case (Some x)
    with rs show ?thesis
      by (simp add: readWarc_loop.simps [of trim s] lines_read.simps [of trim s])
  next
    case None
    show ?thesis
    proof (cases "trim l = ''WARC/1.0''")
      case True
      from "1.IH"(1) [OF rs [symmetric] refl None True] rs None True show ?thesis
        by (simp add: readWarc_loop.simps [of trim s] lines_read.simps [of trim s])
    next
      case False
      from "1.IH"(2) [OF rs [symmetric] refl None False] rs None False show ?thesis
        by (simp add: readWarc_loop.simps [of trim s] lines_read.simps [of trim s])
    qed
  qed
qed

lemma dispatch_no_marker:
  "''WARC/1.0'' \<notin> set ls \<Longrightarrow> dispatch ls rec tasks n = (tasks, rec @ ls, n)"
  by (induction ls arbitrary: rec) auto

lemma dispatch_first_marker:
  "''WARC/1.0'' \<notin> set pre \<Longrightarrow>
     dispatch (pre @ ''WARC/1.0'' # post) rec tasks n
       = dispatch post [''WARC/1.0''] (tasks @ [rec @ pre]) (n + 1)"
  by (induction pre arbitrary: rec) auto

lemma dispatch_count:
  "dispatch ls rec tasks n = (tasks', rec', n') \<Longrightarrow>
     n' = n + count_list ls ''WARC/1.0''
     \<and> length tasks' = length tasks + count_list ls ''WARC/1.0''
     \<and> concat tasks' @ rec' = concat tasks @ rec @ ls
     \<and> (\<exists>more. tasks' = tasks @ more)"
proof (induction ls arbitrary: rec tasks n)
  case Nil
  then show ?case by simp
next
  case (Cons l ls)
  show ?case
  proof (cases "l = ''WARC/1.0''")
    case True
    with Cons.prems have "dispatch ls [l] (tasks @ [rec]) (n + 1) = (tasks', rec', n')"
      by simp
    from Cons.IH [OF this] True show ?thesis by auto
  next
    case False
    with Cons.prems have "dispatch ls (rec @ [l]) tasks n = (tasks', rec', n')"
      by simp
    from Cons.IH [OF this] False show ?thesis by auto
  qed
qed

lemma dispatch_last:
  "dispatch ls rec tasks n = (tasks', rec', n') \<Longrightarrow> ''WARC/1.0'' \<in> set ls \<Longrightarrow>
     \<exists>tl. rec' = ''WARC/1.0'' # tl \<and> ''WARC/1.0'' \<notin> set tl"
proof (induction ls arbitrary: rec tasks n)
  case Nil
  then show ?case by simp
next
  case (Cons l ls)
  show ?case
  proof (cases "''WARC/1.0'' \<in> set ls")
    case True
    from Cons.prems(1) have
      "dispatch ls [l] (tasks @ [rec]) (n + 1) = (tasks', rec', n')
       \<or> dispatch ls (rec @ [l]) tasks n = (tasks', rec', n')"
      by (simp split: if_splits)
    with Cons.IH True show ?thesis by blast
  next
    case False
    with Cons.prems(2) have l: "l = ''WARC/1.0''" by simp
    with Cons.prems(1) False have "rec' = [l] @ ls"
      by (simp add: dispatch_no_marker)
    with l False show ?thesis by simp
  qed
qed

text \<open>
  C9 (the lines from the final marker to the end of the stream are never dispatched; the
  first task gets the lines before the first marker). For the tasks launched, the record
  left in \<open>rec\<close> at the end and the count announced: there is one task for each marker line
  read; the tasks, in order, followed by the record left over are exactly the lines read;
  with no marker there is no task; with a marker, the first task is the lines before the
  first marker, and the record left over starts at a marker and holds no other, so it is
  the final marker with everything after it, and it is in no task.
\<close>

theorem C9_last_record_not_dispatched:
  assumes run: "readWarc trim s = (tasks, rec, n)"
  shows "n = count_list (lines_read trim s) ''WARC/1.0''
         \<and> length tasks = n
         \<and> concat tasks @ rec = lines_read trim s
         \<and> (''WARC/1.0'' \<notin> set (lines_read trim s) \<longrightarrow> tasks = [] \<and> rec = lines_read trim s)
         \<and> (''WARC/1.0'' \<in> set (lines_read trim s) \<longrightarrow>
              (\<exists>more tl. tasks = takeWhile (\<lambda>l. l \<noteq> ''WARC/1.0'') (lines_read trim s) # more
                 \<and> rec = ''WARC/1.0'' # tl \<and> ''WARC/1.0'' \<notin> set tl))"
proof -
  let ?ls = "lines_read trim s"
  from run have d: "dispatch ?ls [] [] 0 = (tasks, rec, n)"
    by (simp add: readWarc_def readWarc_loop_dispatch)
  from dispatch_count [OF d] have a: "n = count_list ?ls ''WARC/1.0''"
    and b: "length tasks = n" and c: "concat tasks @ rec = ?ls"
    by simp_all
  have e: "tasks = [] \<and> rec = ?ls" if "''WARC/1.0'' \<notin> set ?ls"
    using d dispatch_no_marker [OF that, of "[]" "[]" 0] by simp
  have f: "\<exists>more tl. tasks = takeWhile (\<lambda>l. l \<noteq> ''WARC/1.0'') ?ls # more
                 \<and> rec = ''WARC/1.0'' # tl \<and> ''WARC/1.0'' \<notin> set tl"
    if m: "''WARC/1.0'' \<in> set ?ls"
  proof -
    let ?pre = "takeWhile (\<lambda>l. l \<noteq> ''WARC/1.0'') ?ls"
    let ?post = "dropWhile (\<lambda>l. l \<noteq> ''WARC/1.0'') ?ls"
    from m have "?post \<noteq> []" by (simp add: dropWhile_eq_Nil_conv)
    then obtain post where p: "?post = ''WARC/1.0'' # post"
      using hd_dropWhile [of "\<lambda>l. l \<noteq> ''WARC/1.0''" ?ls] by (cases ?post) auto
    have split: "?ls = ?pre @ ''WARC/1.0'' # post"
      using takeWhile_dropWhile_id [of "\<lambda>l. l \<noteq> ''WARC/1.0''" ?ls] p by simp
    have nopre: "''WARC/1.0'' \<notin> set ?pre"
      by (auto dest: set_takeWhileD)
    from d split have "dispatch (?pre @ ''WARC/1.0'' # post) [] [] 0 = (tasks, rec, n)"
      by simp
    with dispatch_first_marker [OF nopre, of post "[]" "[]" 0]
    have "dispatch post [''WARC/1.0''] [?pre] 1 = (tasks, rec, n)"
      by simp
    from dispatch_count [OF this] obtain more where "tasks = [?pre] @ more"
      by blast
    moreover from dispatch_last [OF d m] obtain tl where "rec = ''WARC/1.0'' # tl"
      and "''WARC/1.0'' \<notin> set tl" by blast
    ultimately show ?thesis by simp
  qed
  from a b c e f show ?thesis by blast
qed

lemma two_records_run:
  "readWarc TrimSpace_ascii two_records
     = ([[''junk''], [''WARC/1.0'', ''a'']], [''WARC/1.0'', ''b''], 2)"
  by (simp add: readWarc_def two_records_def readWarc_loop.simps LF_def TrimSpace_ascii_def
      ascii_space_def)

lemma two_records_lines:
  "lines_read TrimSpace_ascii two_records = [''junk'', ''WARC/1.0'', ''a'', ''WARC/1.0'', ''b'']"
  by (simp add: two_records_def lines_read.simps LF_def TrimSpace_ascii_def ascii_space_def)

theorem C9_last_record_not_dispatched_witness:
  "readWarc TrimSpace_ascii two_records
     = ([[''junk''], [''WARC/1.0'', ''a'']], [''WARC/1.0'', ''b''], 2)
   \<and> (2::nat) = count_list (lines_read TrimSpace_ascii two_records) ''WARC/1.0''
   \<and> concat [[''junk''], [''WARC/1.0'', ''a'']] @ [''WARC/1.0'', ''b'']
       = lines_read TrimSpace_ascii two_records
   \<and> ''WARC/1.0'' \<in> set (lines_read TrimSpace_ascii two_records)"
  using C9_last_record_not_dispatched [OF two_records_run]
  by (simp add: two_records_lines two_records_run)

section \<open>Properties of the byte-offset classifier\<close>





end
